theory Spec2Isabelle
  imports Main
begin

section \<open>The notes page: data\<close>

text \<open>
  The page is a React component \<^verbatim>\<open>Home\<close> with six \<^verbatim>\<open>useState\<close> cells, a child
  component \<^verbatim>\<open>NoteEditor\<close> with two cells of its own, and five functions that talk to
  the backend. The embedding keeps the cells as the fields of a record, the setters as
  functions on that record, and every handler as the composition of the setters it calls,
  in the order of the source. The setters that a handler or a callback calls in a row
  are applied in one render, as React 18 does (also after an \<^verbatim>\<open>await\<close>); the effects
  run after that render.

  The page is modelled at two grains. In the first (\<open>step\<close>) a handler is taken together
  with the answers to the requests it starts; what the backend answers is a parameter of
  the step (\<open>net\<close>), so every outcome of every request is a branch. This grain states what
  one operation does when nothing else happens before its answers arrive. In the second
  (\<open>fire\<close>, further down) a request stays in flight until its answer is delivered as an
  event of its own, so that user operations and answers interleave in any order, as they
  can in the browser: "+" and the list entries are never disabled, and the callbacks of a
  fetch store their result whatever has happened since. Properties of whole sessions are
  stated at the second grain.
\<close>

record Note =
  note_id :: string
  title :: string
  content :: string
  created_at :: string
  updated_at :: string

text \<open>The requests the five client functions put on the wire (method, path, body).\<close>

datatype request =
    GET_notes
  | GET_note string
  | POST_note string string
  | PUT_note string string string
  | DELETE_note string

text \<open>
  The backend during one step: for each request, the parsed body of a response whose
  \<^verbatim>\<open>res.ok\<close> holds, or \<open>None\<close> (\<open>False\<close> for DELETE, which has no body) for any other
  status and for a transport failure.
\<close>

record net =
  list_ok :: "Note list option"
  note_ok :: "string \<Rightarrow> Note option"
  create_ok :: "string \<Rightarrow> string \<Rightarrow> Note option"
  update_ok :: "string \<Rightarrow> string \<Rightarrow> string \<Rightarrow> Note option"
  delete_ok :: "string \<Rightarrow> bool"

text \<open>The local state of \<^verbatim>\<open>NoteEditor\<close>: the draft buffer.\<close>

record note_editor =
  localTitle :: string
  localContent :: string

text \<open>
  The state of the page. \<open>editor\<close> is the state of the mounted \<^verbatim>\<open>NoteEditor\<close>, and
  \<open>None\<close> while \<^verbatim>\<open>Home\<close> renders the "No note selected" pane instead.
\<close>

record home =
  notes_list :: "Note list"
  activeId :: "string option"
  activeNote :: "Note option"
  isNewNote :: bool
  loading :: bool
  error :: "string option"
  editor :: "note_editor option"

section \<open>Resource client\<close>

text \<open>
  Each function issues one request and throws an \<^verbatim>\<open>Error\<close> with a fixed message when
  the response is not ok; the model returns the request with \<open>Inl\<close> of the message or
  \<open>Inr\<close> of the body.
\<close>

definition fetchNotes :: "net \<Rightarrow> request \<times> (string + Note list)" where
  "fetchNotes w =
     (GET_notes, case list_ok w of None \<Rightarrow> Inl ''Failed to load notes'' | Some d \<Rightarrow> Inr d)"

definition fetchNote :: "net \<Rightarrow> string \<Rightarrow> request \<times> (string + Note)" where
  "fetchNote w i =
     (GET_note i, case note_ok w i of None \<Rightarrow> Inl ''Failed to load note'' | Some d \<Rightarrow> Inr d)"

definition createNote :: "net \<Rightarrow> string \<Rightarrow> string \<Rightarrow> request \<times> (string + Note)" where
  "createNote w t c =
     (POST_note t c,
      case create_ok w t c of None \<Rightarrow> Inl ''Failed to create note'' | Some d \<Rightarrow> Inr d)"

definition updateNote :: "net \<Rightarrow> string \<Rightarrow> string \<Rightarrow> string \<Rightarrow> request \<times> (string + Note)" where
  "updateNote w i t c =
     (PUT_note i t c,
      case update_ok w i t c of None \<Rightarrow> Inl ''Failed to update note'' | Some d \<Rightarrow> Inr d)"

definition deleteNote :: "net \<Rightarrow> string \<Rightarrow> request \<times> (string + unit)" where
  "deleteNote w i =
     (DELETE_note i, if delete_ok w i then Inr () else Inl ''Failed to delete note'')"

section \<open>State cells and their setters\<close>

text \<open>
  \<^verbatim>\<open>useState(note?.title ?? "")\<close> and the effect on \<^verbatim>\<open>[note]\<close>: the buffer a
  \<^verbatim>\<open>NoteEditor\<close> holds after it is mounted with \<open>n\<close>, or after its \<^verbatim>\<open>note\<close> prop has
  become \<open>n\<close>.
\<close>

definition NoteEditor_init :: "Note option \<Rightarrow> note_editor" where
  "NoteEditor_init n =
     \<lparr>localTitle = (case n of None \<Rightarrow> [] | Some x \<Rightarrow> title x),
      localContent = (case n of None \<Rightarrow> [] | Some x \<Rightarrow> content x)\<rparr>"

definition setNotes :: "Note list \<Rightarrow> home \<Rightarrow> home" where
  "setNotes d s = s\<lparr>notes_list := d\<rparr>"

definition setActiveId :: "string option \<Rightarrow> home \<Rightarrow> home" where
  "setActiveId v s = s\<lparr>activeId := v\<rparr>"

definition setLoading :: "bool \<Rightarrow> home \<Rightarrow> home" where
  "setLoading b s = s\<lparr>loading := b\<rparr>"

definition setError :: "string option \<Rightarrow> home \<Rightarrow> home" where
  "setError e s = s\<lparr>error := e\<rparr>"

text \<open>
  \<^verbatim>\<open>setActiveNote\<close>. Storing \<^verbatim>\<open>null\<close> over \<^verbatim>\<open>null\<close> changes nothing. Every other call of
  the source passes a new object (a literal, or the parsed body of a response), so the
  \<^verbatim>\<open>note\<close> prop of the editor changes and its effect resets the buffer from the new
  note; \<^verbatim>\<open>Home\<close> renders the editor iff \<^verbatim>\<open>isNewNote || activeNote\<close>.
\<close>

definition setActiveNote :: "Note option \<Rightarrow> home \<Rightarrow> home" where
  "setActiveNote v s =
     (if v = None \<and> activeNote s = None then s
      else s\<lparr>activeNote := v,
             editor := (if isNewNote s \<or> v \<noteq> None then Some (NoteEditor_init v) else None)\<rparr>)"

text \<open>
  \<^verbatim>\<open>setIsNewNote\<close>. The same value changes nothing. Otherwise the \<^verbatim>\<open>note\<close> prop is the
  same object as before, so a mounted editor keeps its buffer; the editor is mounted or
  unmounted as \<^verbatim>\<open>isNewNote || activeNote\<close> says.
\<close>

definition setIsNewNote :: "bool \<Rightarrow> home \<Rightarrow> home" where
  "setIsNewNote b s =
     (if isNewNote s = b then s
      else s\<lparr>isNewNote := b,
             editor := (if b \<or> activeNote s \<noteq> None
                        then (case editor s of
                                None \<Rightarrow> Some (NoteEditor_init (activeNote s))
                              | Some e \<Rightarrow> Some e)
                        else None)\<rparr>)"

section \<open>The page\<close>

text \<open>The object \<^verbatim>\<open>handleAddNew\<close> and the effect store for a note being created.\<close>

definition placeholder :: Note where
  "placeholder =
     \<lparr>note_id = ''new'', title = [], content = [], created_at = [], updated_at = []\<rparr>"

definition init :: home where
  "init = \<lparr>notes_list = [], activeId = None, activeNote = None, isNewNote = False,
           loading = False, error = None, editor = None\<rparr>"

text \<open>
  The body of the effect on \<^verbatim>\<open>[activeId, isNewNote]\<close>. An empty string is falsy in
  JavaScript, so \<^verbatim>\<open>activeId && !isNewNote\<close> fails for it as it does for \<^verbatim>\<open>null\<close>.
\<close>

definition activeIdEffect :: "net \<Rightarrow> home \<Rightarrow> request list \<times> home" where
  "activeIdEffect w s =
     (let otherwise = (if isNewNote s then setActiveNote (Some placeholder) s
                       else setActiveNote None s)
      in case activeId s of
           None \<Rightarrow> ([], otherwise)
         | Some i \<Rightarrow>
             if i \<noteq> [] \<and> \<not> isNewNote s then
               (case fetchNote w i of
                  (rq, Inr d) \<Rightarrow>
                    ([rq], setLoading False (setActiveNote (Some d) (setLoading True s)))
                | (rq, Inl _) \<Rightarrow>
                    ([rq], setLoading False
                             (setError (Some ''Could not fetch note'') (setLoading True s))))
             else ([], otherwise))"

text \<open>
  The effect runs after a render in which one of its dependencies differs from the
  previous render (\<open>old\<close>).
\<close>

definition useEffect_activeId :: "net \<Rightarrow> home \<Rightarrow> home \<Rightarrow> request list \<times> home" where
  "useEffect_activeId w old s =
     (if activeId s = activeId old \<and> isNewNote s = isNewNote old then ([], s)
      else activeIdEffect w s)"

text \<open>
  The first render: the effect on \<^verbatim>\<open>[]\<close> loads the list, and the effect on
  \<^verbatim>\<open>[activeId, isNewNote]\<close> runs once, as every effect does after mounting.
\<close>

definition Home_mount :: "net \<Rightarrow> request list \<times> home" where
  "Home_mount w =
     (let s1 = setLoading True init;
          (rq, r) = fetchNotes w;
          s2 = (case r of Inr d \<Rightarrow> setNotes d s1
                        | Inl _ \<Rightarrow> setError (Some ''Could not load notes'') s1);
          s3 = setLoading False s2;
          (rqs, s4) = activeIdEffect w s3
      in (rq # rqs, s4))"

definition refresh :: "net \<Rightarrow> home \<Rightarrow> request list \<times> home" where
  "refresh w s =
     (case fetchNotes w of
        (rq, Inr d) \<Rightarrow> ([rq], setNotes d s)
      | (rq, Inl _) \<Rightarrow> ([rq], setError (Some ''Could not load notes'') s))"

definition handleAddNew :: "net \<Rightarrow> home \<Rightarrow> request list \<times> home" where
  "handleAddNew w s =
     useEffect_activeId w s
       (setActiveNote (Some placeholder) (setActiveId (Some ''new'') (setIsNewNote True s)))"

definition handleSelectNote :: "net \<Rightarrow> string \<Rightarrow> home \<Rightarrow> request list \<times> home" where
  "handleSelectNote w i s =
     useEffect_activeId w s (setActiveId (Some i) (setIsNewNote False s))"

text \<open>
  \<^verbatim>\<open>handleSave\<close>. \<open>isNewNote\<close> and \<open>activeNote\<close> are read from the render the handler
  was created in (\<open>s\<close>). The \<^verbatim>\<open>try\<close> block issues at most one request; when that request
  throws, the rest of the block is skipped. \<^verbatim>\<open>refresh()\<close> is not awaited, so its own
  failure is not caught here.
\<close>

definition handleSave :: "net \<Rightarrow> string \<Rightarrow> string \<Rightarrow> home \<Rightarrow> request list \<times> home" where
  "handleSave w t c s =
     (let s1 = setLoading True s;
          (rqs, thrown) =
            (if isNewNote s then
               (case createNote w t c of (rq, r) \<Rightarrow> ([rq], isl r))
             else
               (case activeNote s of
                  Some n \<Rightarrow> (case updateNote w (note_id n) t c of (rq, r) \<Rightarrow> ([rq], isl r))
                | None \<Rightarrow> ([], False)))
      in if thrown then
           (rqs, setLoading False (setError (Some ''Could not save note'') s1))
         else
           (let s2 = setActiveNote None (setActiveId None (setIsNewNote False s1));
                (rqs2, s3) = refresh w s2;
                s4 = setLoading False s3;
                (rqs3, s5) = useEffect_activeId w s s4
            in (rqs @ rqs2 @ rqs3, s5)))"

definition handleDelete :: "net \<Rightarrow> home \<Rightarrow> request list \<times> home" where
  "handleDelete w s =
     (case activeNote s of
        None \<Rightarrow> ([], s)
      | Some n \<Rightarrow>
          if isNewNote s then ([], s)
          else
            (let s1 = setLoading True s
             in case deleteNote w (note_id n) of
                  (rq, Inl _) \<Rightarrow>
                    ([rq], setLoading False (setError (Some ''Could not delete note'') s1))
                | (rq, Inr _) \<Rightarrow>
                    (let s2 = setIsNewNote False (setActiveNote None (setActiveId None s1));
                         (rqs2, s3) = refresh w s2;
                         s4 = setLoading False s3;
                         (rqs3, s5) = useEffect_activeId w s s4
                     in (rq # rqs2 @ rqs3, s5))))"

section \<open>What the page renders, and the user's operations\<close>

text \<open>\<^verbatim>\<open>selectedId={!isNewNote ? activeId : null}\<close>: the list entry the sidebar highlights.\<close>

definition selectedId :: "home \<Rightarrow> string option" where
  "selectedId s = (if \<not> isNewNote s then activeId s else None)"

text \<open>\<^verbatim>\<open>(isNewNote || activeNote) ? <NoteEditor .../> : ...\<close>\<close>

definition editor_rendered :: "home \<Rightarrow> bool" where
  "editor_rendered s = (isNewNote s \<or> activeNote s \<noteq> None)"

text \<open>
  The two inputs of the editor: disabled while \<open>loading\<close>; they store the value in the
  local cell and call \<^verbatim>\<open>onChange\<close>, which \<^verbatim>\<open>Home\<close> passes as \<^verbatim>\<open>() => {}\<close>. The
  \<^verbatim>\<open>maxLength\<close> of an input bounds what the browser lets a user type; the handlers take
  the value as it arrives.
\<close>

definition typeTitle :: "string \<Rightarrow> home \<Rightarrow> home" where
  "typeTitle v s =
     (case editor s of
        None \<Rightarrow> s
      | Some e \<Rightarrow> if editor_rendered s \<and> \<not> loading s
                  then s\<lparr>editor := Some (e\<lparr>localTitle := v\<rparr>)\<rparr> else s)"

definition typeContent :: "string \<Rightarrow> home \<Rightarrow> home" where
  "typeContent v s =
     (case editor s of
        None \<Rightarrow> s
      | Some e \<Rightarrow> if editor_rendered s \<and> \<not> loading s
                  then s\<lparr>editor := Some (e\<lparr>localContent := v\<rparr>)\<rparr> else s)"

text \<open>
  The Create/Save button: \<^verbatim>\<open>disabled={loading || (!localTitle && !localContent)}\<close>,
  \<^verbatim>\<open>onClick={() => onSave(localTitle, localContent)}\<close>. A disabled button fires no click.
\<close>

definition clickSave :: "net \<Rightarrow> home \<Rightarrow> request list \<times> home" where
  "clickSave w s =
     (case editor s of
        None \<Rightarrow> ([], s)
      | Some e \<Rightarrow>
          if editor_rendered s \<and> \<not> (loading s \<or> (localTitle e = [] \<and> localContent e = []))
          then handleSave w (localTitle e) (localContent e) s
          else ([], s))"

text \<open>The Delete button: rendered when \<^verbatim>\<open>!isNew\<close>, \<^verbatim>\<open>disabled={loading}\<close>.\<close>

definition clickDelete :: "net \<Rightarrow> home \<Rightarrow> request list \<times> home" where
  "clickDelete w s =
     (case editor s of
        None \<Rightarrow> ([], s)
      | Some e \<Rightarrow>
          if editor_rendered s \<and> \<not> isNewNote s \<and> \<not> loading s then handleDelete w s
          else ([], s))"

text \<open>
  The operations of a user: "+" (or Ctrl+N), a click on a list entry, typing into one of
  the two fields, the Save and Delete buttons, and the "x" of the error banner. The
  sidebar offers the ids of the list cache; \<open>Select\<close> takes any id, as \<^verbatim>\<open>handleSelectNote\<close>
  does.
\<close>

datatype action =
    AddNew
  | Select string
  | EditTitle string
  | EditContent string
  | Save
  | Delete
  | DismissError

fun step :: "net \<Rightarrow> action \<Rightarrow> home \<Rightarrow> request list \<times> home" where
  "step w AddNew s = handleAddNew w s"
| "step w (Select i) s = handleSelectNote w i s"
| "step w (EditTitle v) s = ([], typeTitle v s)"
| "step w (EditContent v) s = ([], typeContent v s)"
| "step w Save s = clickSave w s"
| "step w Delete s = clickDelete w s"
| "step w DismissError s = ([], setError None s)"

text \<open>
  Operations in order, each with what the backend answers during it and each finished
  before the next begins. The result is every request sent and the last state. Such a
  sequence is one possible session, not every session.
\<close>

fun run :: "(net \<times> action) list \<Rightarrow> home \<Rightarrow> request list \<times> home" where
  "run [] s = ([], s)"
| "run ((w, a) # tr) s =
     (case step w a s of (rqs, s') \<Rightarrow>
        (case run tr s' of (rqs', s'') \<Rightarrow> (rqs @ rqs', s'')))"

section \<open>The selection state of the spec\<close>

text \<open>
  The spec speaks of one selection state: nothing selected, a note being created, or an
  existing note \<open>id\<close>.
\<close>

datatype selection = Idle | Drafting | Viewing string

text \<open>
  What the page presents, read off the source: the render shows the editor in "Create"
  mode when \<open>isNewNote\<close>, else the editor on \<open>activeNote\<close> when there is one, else the empty
  pane; \<^verbatim>\<open>handleSave\<close> and \<^verbatim>\<open>handleDelete\<close> branch the same way and address the backend
  with \<^verbatim>\<open>activeNote.id\<close>.
\<close>

definition selection_of :: "home \<Rightarrow> selection" where
  "selection_of s =
     (if isNewNote s then Drafting
      else case activeNote s of None \<Rightarrow> Idle | Some n \<Rightarrow> Viewing (note_id n))"

text \<open>
  The spec's encoding of its three states in the triple \<open>(activeId, activeNote, isNewNote)\<close>,
  written from the spec's words: \<open>Idle\<close> is the initial triple, which is also what a
  successful save or delete stores; \<open>Drafting\<close> is what \<^verbatim>\<open>handleAddNew\<close> stores; \<open>Viewing i\<close>
  is an existing note \<open>i\<close>, selected and loaded.
\<close>

fun spec_encodes :: "home \<Rightarrow> selection \<Rightarrow> bool" where
  "spec_encodes s Idle = (activeId s = None \<and> activeNote s = None \<and> \<not> isNewNote s)"
| "spec_encodes s Drafting =
     (activeId s = Some ''new'' \<and> activeNote s = Some placeholder \<and> isNewNote s)"
| "spec_encodes s (Viewing i) =
     (activeId s = Some i \<and> \<not> isNewNote s \<and>
      (case activeNote s of None \<Rightarrow> False | Some n \<Rightarrow> note_id n = i))"

text \<open>A create, update or delete request that the backend answered with success.\<close>

definition mutation_succeeded :: "net \<Rightarrow> request \<Rightarrow> bool" where
  "mutation_succeeded w r =
     (case r of
        POST_note t c \<Rightarrow> create_ok w t c \<noteq> None
      | PUT_note i t c \<Rightarrow> update_ok w i t c \<noteq> None
      | DELETE_note i \<Rightarrow> delete_ok w i
      | _ \<Rightarrow> False)"

section \<open>Concrete sessions\<close>

text \<open>
  A backend that holds one note, \<open>"1"\<close>, and a backend that answers every request with a
  failure; the page after it has loaded the list, after "+", and after a click on \<open>"1"\<close>.
\<close>

definition note1 :: Note where
  "note1 = \<lparr>note_id = ''1'', title = ''Hi'', content = [], created_at = ''t1'',
             updated_at = ''t1''\<rparr>"

definition backend_up :: net where
  "backend_up =
     \<lparr>list_ok = Some [note1],
      note_ok = (\<lambda>i. if i = ''1'' then Some note1 else None),
      create_ok = (\<lambda>t c. Some \<lparr>note_id = ''2'', title = t, content = c,
                                created_at = ''t2'', updated_at = ''t2''\<rparr>),
      update_ok = (\<lambda>i t c. if i = ''1'' then Some (note1\<lparr>title := t, content := c\<rparr>)
                            else None),
      delete_ok = (\<lambda>i. i = ''1'')\<rparr>"

definition backend_down :: net where
  "backend_down =
     \<lparr>list_ok = None, note_ok = (\<lambda>i. None), create_ok = (\<lambda>t c. None),
      update_ok = (\<lambda>i t c. None), delete_ok = (\<lambda>i. False)\<rparr>"

definition st_idle :: home where
  "st_idle = snd (Home_mount backend_up)"

definition st_drafting :: home where
  "st_drafting = snd (step backend_up AddNew st_idle)"

definition st_viewing :: home where
  "st_viewing = snd (step backend_up (Select ''1'') st_idle)"

text \<open>
  The same pages after a click on \<open>"1"\<close> that the backend answers with a failure: from
  the loaded page, and from the page with a draft in which the user has typed a title.
\<close>

definition st_idle_failed :: home where
  "st_idle_failed = snd (step backend_down (Select ''1'') st_idle)"

definition st_draft_failed :: home where
  "st_draft_failed =
     snd (run [(backend_up, AddNew), (backend_up, EditTitle ''Hi''),
               (backend_down, Select ''1'')] st_idle)"

text \<open>
  A backend with two notes, one on which only the list request fails, the draft with a
  title typed into it, and the page that shows note \<open>"1"\<close> after a click on \<open>"2"\<close> that the
  backend answered with a failure.
\<close>

definition note2 :: Note where
  "note2 = \<lparr>note_id = ''2'', title = ''Yo'', content = [], created_at = ''t2'',
             updated_at = ''t2''\<rparr>"

definition backend_two :: net where
  "backend_two =
     \<lparr>list_ok = Some [note1, note2],
      note_ok = (\<lambda>i. if i = ''1'' then Some note1 else if i = ''2'' then Some note2 else None),
      create_ok = (\<lambda>t c. Some \<lparr>note_id = ''3'', title = t, content = c,
                                created_at = ''t3'', updated_at = ''t3''\<rparr>),
      update_ok = (\<lambda>i t c. if i = ''1'' then Some (note1\<lparr>title := t, content := c\<rparr>)
                            else if i = ''2'' then Some (note2\<lparr>title := t, content := c\<rparr>)
                            else None),
      delete_ok = (\<lambda>i. i = ''1'' \<or> i = ''2'')\<rparr>"

definition backend_list_down :: net where
  "backend_list_down = backend_up\<lparr>list_ok := None\<rparr>"

definition st_typed :: home where
  "st_typed = snd (step backend_up (EditTitle ''Yo'') st_drafting)"

definition st_view_failed :: home where
  "st_view_failed =
     snd (run [(backend_two, Select ''1''), (backend_down, Select ''2'')]
            (snd (Home_mount backend_two)))"

section \<open>Requests in flight\<close>

text \<open>
  The second grain. A promise is a request that has been sent and not yet answered,
  together with the callbacks the source has attached to it.
\<close>

datatype promise =
    Loading_list
  | Refreshing
  | Fetching string
  | Saving
  | Deleting

text \<open>
  \<open>Loading_list\<close> is \<^verbatim>\<open>fetchNotes()\<close> of the effect on \<^verbatim>\<open>[]\<close>, \<open>Refreshing\<close> is
  \<^verbatim>\<open>fetchNotes()\<close> of \<^verbatim>\<open>refresh\<close>, \<open>Fetching i\<close> is \<^verbatim>\<open>fetchNote(i)\<close> of the effect on
  \<^verbatim>\<open>[activeId, isNewNote]\<close>, \<open>Saving\<close> is the create or update call that \<^verbatim>\<open>handleSave\<close>
  awaits, \<open>Deleting\<close> the delete call that \<^verbatim>\<open>handleDelete\<close> awaits.

  An answer is a rejection (a status that is not ok, or a transport failure) or the
  body of an ok response.
\<close>

datatype answer =
    Rejected
  | Got_list "Note list"
  | Got_note Note
  | Got_nothing

record page =
  ui :: home
  inflight :: "promise list"

text \<open>What a handler or a callback does at once: requests sent, promises created, cells.\<close>

type_synonym started = "request list \<times> promise list \<times> home"

text \<open>The effect on \<^verbatim>\<open>[activeId, isNewNote]\<close> up to the point where the fetch is sent.\<close>

definition effect_start :: "home \<Rightarrow> started" where
  "effect_start s =
     (let otherwise = (if isNewNote s then setActiveNote (Some placeholder) s
                       else setActiveNote None s)
      in case activeId s of
           None \<Rightarrow> ([], [], otherwise)
         | Some i \<Rightarrow>
             if i \<noteq> [] \<and> \<not> isNewNote s
             then ([GET_note i], [Fetching i], setLoading True s)
             else ([], [], otherwise))"

definition effect_after :: "home \<Rightarrow> home \<Rightarrow> started" where
  "effect_after old s =
     (if activeId s = activeId old \<and> isNewNote s = isNewNote old then ([], [], s)
      else effect_start s)"

text \<open>
  The rest of the \<^verbatim>\<open>try\<close> block of \<^verbatim>\<open>handleSave\<close> once the awaited call has returned, with
  \<^verbatim>\<open>finally\<close> and the render that follows: the three cells are cleared, \<^verbatim>\<open>refresh()\<close> sends
  the list request, \<open>loading\<close> goes off. \<open>old\<close> is the render before.
\<close>

definition save_settled :: "home \<Rightarrow> home \<Rightarrow> started" where
  "save_settled old s =
     (let s2 = setActiveNote None (setActiveId None (setIsNewNote False s));
          s3 = setLoading False s2;
          (rqs, ps, s4) = effect_after old s3
      in (GET_notes # rqs, Refreshing # ps, s4))"

definition delete_settled :: "home \<Rightarrow> home \<Rightarrow> started" where
  "delete_settled old s =
     (let s2 = setIsNewNote False (setActiveNote None (setActiveId None s));
          s3 = setLoading False s2;
          (rqs, ps, s4) = effect_after old s3
      in (GET_notes # rqs, Refreshing # ps, s4))"

text \<open>
  \<^verbatim>\<open>handleSave\<close> up to its \<^verbatim>\<open>await\<close>. When neither branch of the \<^verbatim>\<open>if\<close> applies there is
  nothing to await and the block runs to its end at once.
\<close>

definition handleSave_start :: "string \<Rightarrow> string \<Rightarrow> home \<Rightarrow> started" where
  "handleSave_start t c s =
     (let s1 = setLoading True s
      in if isNewNote s then ([POST_note t c], [Saving], s1)
         else case activeNote s of
                Some n \<Rightarrow> ([PUT_note (note_id n) t c], [Saving], s1)
              | None \<Rightarrow> save_settled s s1)"

definition handleDelete_start :: "home \<Rightarrow> started" where
  "handleDelete_start s =
     (case activeNote s of
        None \<Rightarrow> ([], [], s)
      | Some n \<Rightarrow>
          if isNewNote s then ([], [], s)
          else ([DELETE_note (note_id n)], [Deleting], setLoading True s))"

text \<open>
  The callbacks of a promise, run when its answer arrives. An answer of a shape the
  request cannot have is no event of the program (\<open>None\<close>).
\<close>

fun deliver :: "promise \<Rightarrow> answer \<Rightarrow> home \<Rightarrow> started option" where
  "deliver Loading_list (Got_list d) s = Some ([], [], setLoading False (setNotes d s))"
| "deliver Loading_list Rejected s =
     Some ([], [], setLoading False (setError (Some ''Could not load notes'') s))"
| "deliver Refreshing (Got_list d) s = Some ([], [], setNotes d s)"
| "deliver Refreshing Rejected s = Some ([], [], setError (Some ''Could not load notes'') s)"
| "deliver (Fetching i) (Got_note d) s =
     Some ([], [], setLoading False (setActiveNote (Some d) s))"
| "deliver (Fetching i) Rejected s =
     Some ([], [], setLoading False (setError (Some ''Could not fetch note'') s))"
| "deliver Saving (Got_note d) s = Some (save_settled s s)"
| "deliver Saving Rejected s =
     Some ([], [], setLoading False (setError (Some ''Could not save note'') s))"
| "deliver Deleting Got_nothing s = Some (delete_settled s s)"
| "deliver Deleting Rejected s =
     Some ([], [], setLoading False (setError (Some ''Could not delete note'') s))"
| "deliver _ _ s = None"

text \<open>A user operation up to the requests it sends.\<close>

fun user :: "action \<Rightarrow> home \<Rightarrow> started" where
  "user AddNew s =
     effect_after s
       (setActiveNote (Some placeholder) (setActiveId (Some ''new'') (setIsNewNote True s)))"
| "user (Select i) s = effect_after s (setActiveId (Some i) (setIsNewNote False s))"
| "user (EditTitle v) s = ([], [], typeTitle v s)"
| "user (EditContent v) s = ([], [], typeContent v s)"
| "user Save s =
     (case editor s of
        None \<Rightarrow> ([], [], s)
      | Some e \<Rightarrow>
          if editor_rendered s \<and> \<not> (loading s \<or> (localTitle e = [] \<and> localContent e = []))
          then handleSave_start (localTitle e) (localContent e) s
          else ([], [], s))"
| "user Delete s =
     (case editor s of
        None \<Rightarrow> ([], [], s)
      | Some e \<Rightarrow>
          if editor_rendered s \<and> \<not> isNewNote s \<and> \<not> loading s then handleDelete_start s
          else ([], [], s))"
| "user DismissError s = ([], [], setError None s)"

text \<open>
  An event is a user operation or the arrival of the answer to the \<open>k\<close>-th request in
  flight; answers may arrive in any order.
\<close>

datatype event = User action | Answer nat answer

fun fire :: "event \<Rightarrow> page \<Rightarrow> request list \<times> page" where
  "fire (User a) p =
     (case user a (ui p) of
        (rqs, ps, s) \<Rightarrow> (rqs, \<lparr>ui = s, inflight = inflight p @ ps\<rparr>))"
| "fire (Answer k a) p =
     (if k < length (inflight p) then
        (case deliver (inflight p ! k) a (ui p) of
           None \<Rightarrow> ([], p)
         | Some (rqs, ps, s) \<Rightarrow>
             (rqs, \<lparr>ui = s,
                    inflight = take k (inflight p) @ drop (Suc k) (inflight p) @ ps\<rparr>))
      else ([], p))"

fun session :: "event list \<Rightarrow> page \<Rightarrow> request list \<times> page" where
  "session [] p = ([], p)"
| "session (e # tr) p =
     (case fire e p of (rqs, p') \<Rightarrow>
        (case session tr p' of (rqs', p'') \<Rightarrow> (rqs @ rqs', p'')))"

text \<open>The first render, with the list request in flight.\<close>

definition mounted :: "request list \<times> page" where
  "mounted =
     (let s1 = setLoading True init;
          (rqs, ps, s2) = effect_start s1
      in (GET_notes # rqs, \<lparr>ui = s2, inflight = Loading_list # ps\<rparr>))"

text \<open>
  The answer a backend \<open>w\<close> of the first grain gives to a request; it ties the two grains
  together.
\<close>

fun net_answer :: "net \<Rightarrow> request \<Rightarrow> answer" where
  "net_answer w GET_notes = (case list_ok w of None \<Rightarrow> Rejected | Some d \<Rightarrow> Got_list d)"
| "net_answer w (GET_note i) = (case note_ok w i of None \<Rightarrow> Rejected | Some d \<Rightarrow> Got_note d)"
| "net_answer w (POST_note t c) =
     (case create_ok w t c of None \<Rightarrow> Rejected | Some d \<Rightarrow> Got_note d)"
| "net_answer w (PUT_note i t c) =
     (case update_ok w i t c of None \<Rightarrow> Rejected | Some d \<Rightarrow> Got_note d)"
| "net_answer w (DELETE_note i) = (if delete_ok w i then Got_nothing else Rejected)"

text \<open>
  Which events bring the triple \<open>(activeId, activeNote, isNewNote)\<close> into one of the three
  encodings, whatever it was: "+"; the completion of a successful save or delete; and the
  arrival of a fetched note while that note is the one selected.
\<close>

definition settles :: "event \<Rightarrow> page \<Rightarrow> bool" where
  "settles e p =
     (case e of
        User a \<Rightarrow> a = AddNew
      | Answer k a \<Rightarrow>
          k < length (inflight p) \<and>
          (case inflight p ! k of
             Fetching i \<Rightarrow>
               (case a of
                  Got_note d \<Rightarrow> activeId (ui p) = Some (note_id d) \<and> \<not> isNewNote (ui p)
                | _ \<Rightarrow> False)
           | Saving \<Rightarrow> (case a of Got_note d \<Rightarrow> True | _ \<Rightarrow> False)
           | Deleting \<Rightarrow> a = Got_nothing
           | _ \<Rightarrow> False))"

text \<open>
  Which events can take the triple out of the encodings: a Select that changes the
  selection (the new id is stored and the note of the old selection stays until the
  answer arrives), and the arrival of a fetched note that is not the one selected, or
  that arrives while a note is being created.
\<close>

definition unsettles :: "event \<Rightarrow> page \<Rightarrow> bool" where
  "unsettles e p =
     (case e of
        User a \<Rightarrow>
          (case a of
             Select i \<Rightarrow> \<not> (activeId (ui p) = Some i \<and> \<not> isNewNote (ui p))
           | _ \<Rightarrow> False)
      | Answer k a \<Rightarrow>
          k < length (inflight p) \<and>
          (case inflight p ! k of
             Fetching i \<Rightarrow>
               (case a of
                  Got_note d \<Rightarrow> \<not> (activeId (ui p) = Some (note_id d) \<and> \<not> isNewNote (ui p))
                | _ \<Rightarrow> False)
           | _ \<Rightarrow> False))"

text \<open>
  \<open>settled b tr p\<close>: starting from \<open>p\<close>, where the triple is known to be an encoding iff
  \<open>b\<close>, the last event of \<open>tr\<close> that can take the triple out of the encodings is followed
  by one that brings it back.
\<close>

fun settled :: "bool \<Rightarrow> event list \<Rightarrow> page \<Rightarrow> bool" where
  "settled b [] p = b"
| "settled b (e # tr) p =
     settled (settles e p \<or> (b \<and> \<not> unsettles e p)) tr (snd (fire e p))"

text \<open>
  Two sessions on the mounted page. In the first the user opens a draft, types a title
  and clicks note \<open>"1"\<close>, and the fetch is rejected. In the second the user clicks note
  \<open>"1"\<close> and then "+", and the fetched note arrives after that.
\<close>

definition session_failed_fetch :: "event list" where
  "session_failed_fetch =
     [Answer 0 (Got_list [note1]), User AddNew, User (EditTitle ''Hi''),
      User (Select ''1''), Answer 0 Rejected]"

definition session_late_answer :: "event list" where
  "session_late_answer =
     [Answer 0 (Got_list [note1]), User (Select ''1''), User AddNew,
      Answer 0 (Got_note note1)]"

text \<open>
  A session in which a rejected fetch is followed by a click on another note whose fetch
  is answered, and one that ends with "+".
\<close>

definition session_recovered :: "event list" where
  "session_recovered =
     [Answer 0 (Got_list [note1, note2]), User (Select ''2''), Answer 0 Rejected,
      User (Select ''1''), Answer 0 (Got_note note1)]"

definition session_draft :: "event list" where
  "session_draft =
     [Answer 0 (Got_list [note1]), User (Select ''1''), Answer 0 Rejected, User AddNew]"

section \<open>Unfolding rules and the concrete states\<close>

lemmas client_defs = fetchNotes_def fetchNote_def createNote_def updateNote_def deleteNote_def

lemmas setter_defs = setNotes_def setActiveId_def setLoading_def setError_def
  setActiveNote_def setIsNewNote_def

lemmas page_defs = activeIdEffect_def useEffect_activeId_def refresh_def handleAddNew_def
  handleSelectNote_def handleSave_def handleDelete_def

lemmas click_defs = editor_rendered_def typeTitle_def typeContent_def clickSave_def
  clickDelete_def

lemmas backend_defs = backend_up_def backend_down_def note1_def

lemmas flight_defs = effect_start_def effect_after_def save_settled_def delete_settled_def
  handleSave_start_def handleDelete_start_def

lemmas session_defs = session_failed_fetch_def session_late_answer_def session_recovered_def
  session_draft_def

lemma Home_mount_eq:
  "Home_mount w =
     ([GET_notes],
      init\<lparr>notes_list := (case list_ok w of None \<Rightarrow> [] | Some d \<Rightarrow> d),
           error := (case list_ok w of None \<Rightarrow> Some ''Could not load notes'' | Some d \<Rightarrow> None)\<rparr>)"
  by (cases "list_ok w")
     (simp_all add: Home_mount_def init_def client_defs setter_defs activeIdEffect_def)

lemma st_idle_eq:
  "st_idle = \<lparr>notes_list = [note1], activeId = None, activeNote = None, isNewNote = False,
              loading = False, error = None, editor = None\<rparr>"
  by (simp add: st_idle_def Home_mount_eq init_def backend_up_def)

lemma st_drafting_eq:
  "st_drafting =
     \<lparr>notes_list = [note1], activeId = Some ''new'', activeNote = Some placeholder,
      isNewNote = True, loading = False, error = None,
      editor = Some \<lparr>localTitle = [], localContent = []\<rparr>\<rparr>"
  by (simp add: st_drafting_def st_idle_eq page_defs setter_defs NoteEditor_init_def
      placeholder_def)

lemma st_viewing_eq:
  "st_viewing =
     \<lparr>notes_list = [note1], activeId = Some ''1'', activeNote = Some note1,
      isNewNote = False, loading = False, error = None,
      editor = Some \<lparr>localTitle = ''Hi'', localContent = []\<rparr>\<rparr>"
  by (simp add: st_viewing_def st_idle_eq page_defs setter_defs client_defs
      NoteEditor_init_def backend_defs)

lemma st_idle_failed_eq:
  "st_idle_failed =
     \<lparr>notes_list = [note1], activeId = Some ''1'', activeNote = None, isNewNote = False,
      loading = False, error = Some ''Could not fetch note'', editor = None\<rparr>"
  by (simp add: st_idle_failed_def st_idle_eq page_defs setter_defs client_defs backend_defs)

lemma st_draft_failed_eq:
  "st_draft_failed =
     \<lparr>notes_list = [note1], activeId = Some ''1'', activeNote = Some placeholder,
      isNewNote = False, loading = False, error = Some ''Could not fetch note'',
      editor = Some \<lparr>localTitle = ''Hi'', localContent = []\<rparr>\<rparr>"
  by (simp add: st_draft_failed_def st_idle_eq page_defs click_defs setter_defs client_defs
      NoteEditor_init_def backend_defs placeholder_def)

lemma st_typed_eq:
  "st_typed =
     \<lparr>notes_list = [note1], activeId = Some ''new'', activeNote = Some placeholder,
      isNewNote = True, loading = False, error = None,
      editor = Some \<lparr>localTitle = ''Yo'', localContent = []\<rparr>\<rparr>"
  by (simp add: st_typed_def st_drafting_eq click_defs)

lemma st_view_failed_eq:
  "st_view_failed =
     \<lparr>notes_list = [note1, note2], activeId = Some ''2'', activeNote = Some note1,
      isNewNote = False, loading = False, error = Some ''Could not fetch note'',
      editor = Some \<lparr>localTitle = ''Hi'', localContent = []\<rparr>\<rparr>"
  by (simp add: st_view_failed_def Home_mount_eq init_def page_defs setter_defs client_defs
      NoteEditor_init_def backend_two_def backend_down_def note1_def note2_def)

section \<open>The handlers, case by case\<close>

lemma handleSave_new:
  "isNewNote s \<Longrightarrow>
   handleSave w t c s =
     (if create_ok w t c = None
      then ([POST_note t c], s\<lparr>loading := False, error := Some ''Could not save note''\<rparr>)
      else ([POST_note t c, GET_notes],
            s\<lparr>notes_list := (case list_ok w of None \<Rightarrow> notes_list s | Some d \<Rightarrow> d),
              activeId := None, activeNote := None, isNewNote := False, loading := False,
              error := (case list_ok w of None \<Rightarrow> Some ''Could not load notes''
                        | Some d \<Rightarrow> error s),
              editor := None\<rparr>))"
  by (cases "activeId s"; cases "list_ok w"; cases "activeNote s")
     (auto simp add: page_defs client_defs setter_defs)

lemma handleSave_existing:
  "\<not> isNewNote s \<Longrightarrow> activeNote s = Some n \<Longrightarrow>
   handleSave w t c s =
     (if update_ok w (note_id n) t c = None
      then ([PUT_note (note_id n) t c],
            s\<lparr>loading := False, error := Some ''Could not save note''\<rparr>)
      else ([PUT_note (note_id n) t c, GET_notes],
            s\<lparr>notes_list := (case list_ok w of None \<Rightarrow> notes_list s | Some d \<Rightarrow> d),
              activeId := None, activeNote := None, isNewNote := False, loading := False,
              error := (case list_ok w of None \<Rightarrow> Some ''Could not load notes''
                        | Some d \<Rightarrow> error s),
              editor := None\<rparr>))"
  by (cases "activeId s"; cases "list_ok w")
     (auto simp add: page_defs client_defs setter_defs)

lemma handleDelete_existing:
  "\<not> isNewNote s \<Longrightarrow> activeNote s = Some n \<Longrightarrow>
   handleDelete w s =
     (if delete_ok w (note_id n)
      then ([DELETE_note (note_id n), GET_notes],
            s\<lparr>notes_list := (case list_ok w of None \<Rightarrow> notes_list s | Some d \<Rightarrow> d),
              activeId := None, activeNote := None, loading := False,
              error := (case list_ok w of None \<Rightarrow> Some ''Could not load notes''
                        | Some d \<Rightarrow> error s),
              editor := None\<rparr>)
      else ([DELETE_note (note_id n)],
            s\<lparr>loading := False, error := Some ''Could not delete note''\<rparr>))"
  by (cases "activeId s"; cases "list_ok w")
     (auto simp add: page_defs client_defs setter_defs)

lemma select_requests:
  "(fst (handleSelectNote w i s) = [] \<or> fst (handleSelectNote w i s) = [GET_note i]) \<and>
   notes_list (snd (handleSelectNote w i s)) = notes_list s"
  by (auto simp add: page_defs client_defs setter_defs split: option.splits)

lemma addNew_requests:
  "fst (handleAddNew w s) = [] \<and> notes_list (snd (handleAddNew w s)) = notes_list s"
  by (auto simp add: page_defs client_defs setter_defs split: option.splits)

lemma handleSave_refresh:
  assumes "isNewNote s \<or> activeNote s \<noteq> None"
  shows "filter (\<lambda>r. r = GET_notes) (fst (handleSave w t c s)) =
     (if list_ex (mutation_succeeded w) (fst (handleSave w t c s)) then [GET_notes] else []) \<and>
   notes_list (snd (handleSave w t c s)) =
     (if GET_notes \<in> set (fst (handleSave w t c s))
      then (case list_ok w of None \<Rightarrow> notes_list s | Some d \<Rightarrow> d)
      else notes_list s)"
proof (cases "isNewNote s")
  case True
  then show ?thesis by (simp add: handleSave_new mutation_succeeded_def)
next
  case False
  with assms obtain n where "activeNote s = Some n" by auto
  with False show ?thesis by (simp add: handleSave_existing mutation_succeeded_def)
qed

lemma handleDelete_refresh:
  "filter (\<lambda>r. r = GET_notes) (fst (handleDelete w s)) =
     (if list_ex (mutation_succeeded w) (fst (handleDelete w s)) then [GET_notes] else []) \<and>
   notes_list (snd (handleDelete w s)) =
     (if GET_notes \<in> set (fst (handleDelete w s))
      then (case list_ok w of None \<Rightarrow> notes_list s | Some d \<Rightarrow> d)
      else notes_list s)"
proof (cases "\<not> isNewNote s \<and> activeNote s \<noteq> None")
  case True
  then obtain n where "activeNote s = Some n" by auto
  with True show ?thesis by (simp add: handleDelete_existing mutation_succeeded_def)
next
  case False
  then show ?thesis by (auto simp add: handleDelete_def split: option.splits)
qed

lemma step_refresh:
  "filter (\<lambda>r. r = GET_notes) (fst (step w a s)) =
     (if list_ex (mutation_succeeded w) (fst (step w a s)) then [GET_notes] else []) \<and>
   notes_list (snd (step w a s)) =
     (if GET_notes \<in> set (fst (step w a s))
      then (case list_ok w of None \<Rightarrow> notes_list s | Some d \<Rightarrow> d)
      else notes_list s)"
proof (cases a)
  case AddNew
  then show ?thesis using addNew_requests [of w s] by simp
next
  case (Select i)
  then show ?thesis using select_requests [of w i s]
    by (auto simp add: mutation_succeeded_def)
next
  case (EditTitle v)
  then show ?thesis by (simp add: typeTitle_def split: option.splits)
next
  case (EditContent v)
  then show ?thesis by (simp add: typeContent_def split: option.splits)
next
  case Save
  show ?thesis
  proof (cases "editor s")
    case None
    with Save show ?thesis by (simp add: clickSave_def)
  next
    case (Some e)
    show ?thesis
    proof (cases "editor_rendered s \<and> \<not> (loading s \<or> (localTitle e = [] \<and> localContent e = []))")
      case True
      then have "isNewNote s \<or> activeNote s \<noteq> None" by (simp add: editor_rendered_def)
      from handleSave_refresh [OF this, of w "localTitle e" "localContent e"]
      show ?thesis using Save Some True by (simp add: clickSave_def)
    next
      case False
      with Save Some show ?thesis by (auto simp add: clickSave_def)
    qed
  qed
next
  case Delete
  show ?thesis
  proof (cases "editor s")
    case None
    with Delete show ?thesis by (simp add: clickDelete_def)
  next
    case (Some e)
    show ?thesis
    proof (cases "editor_rendered s \<and> \<not> isNewNote s \<and> \<not> loading s")
      case True
      with handleDelete_refresh [of w s]
      show ?thesis using Delete Some by (simp add: clickDelete_def)
    next
      case False
      with Delete Some show ?thesis by (auto simp add: clickDelete_def)
    qed
  qed
next
  case DismissError
  then show ?thesis by (simp add: setError_def)
qed

lemma step_requests:
  "(GET_notes \<in> set (fst (step w a s)) \<longrightarrow>
      fst (step w a s) = [hd (fst (step w a s)), GET_notes] \<and>
      mutation_succeeded w (hd (fst (step w a s)))) \<and>
   (GET_notes \<notin> set (fst (step w a s)) \<longrightarrow>
      length (fst (step w a s)) \<le> 1 \<and>
      \<not> list_ex (mutation_succeeded w) (fst (step w a s)))"
proof (cases a)
  case AddNew
  then show ?thesis using addNew_requests [of w s] by simp
next
  case (Select i)
  then show ?thesis using select_requests [of w i s]
    by (auto simp add: mutation_succeeded_def)
next
  case (EditTitle v)
  then show ?thesis by simp
next
  case (EditContent v)
  then show ?thesis by simp
next
  case Save
  show ?thesis
  proof (cases "isNewNote s")
    case True
    with Save show ?thesis
      by (auto simp add: clickSave_def handleSave_new mutation_succeeded_def
          split: option.splits)
  next
    case False
    show ?thesis
    proof (cases "activeNote s")
      case None
      with Save False show ?thesis
        by (auto simp add: clickSave_def editor_rendered_def split: option.splits)
    next
      case (Some n)
      with Save False show ?thesis
        by (auto simp add: clickSave_def handleSave_existing mutation_succeeded_def
            split: option.splits)
    qed
  qed
next
  case Delete
  show ?thesis
  proof (cases "activeNote s")
    case None
    with Delete show ?thesis
      by (auto simp add: clickDelete_def handleDelete_def split: option.splits)
  next
    case (Some n)
    with Delete show ?thesis
      by (cases "isNewNote s")
         (auto simp add: clickDelete_def handleDelete_existing mutation_succeeded_def
            split: option.splits)
  qed
next
  case DismissError
  then show ?thesis by simp
qed

section \<open>Requests in flight: the two grains agree\<close>

lemma save_settled_eq:
  "save_settled old s =
     ([GET_notes], [Refreshing],
      s\<lparr>activeId := None, activeNote := None, isNewNote := False, loading := False,
        editor := (if activeNote s = None \<and> \<not> isNewNote s then editor s else None)\<rparr>)"
  by (cases s)
     (auto simp add: save_settled_def effect_after_def effect_start_def setter_defs Let_def)

lemma delete_settled_eq:
  "delete_settled old s =
     ([GET_notes], [Refreshing],
      s\<lparr>activeId := None, activeNote := None, isNewNote := False, loading := False,
        editor := (if activeNote s = None \<and> \<not> isNewNote s then editor s else None)\<rparr>)"
  by (cases s)
     (auto simp add: delete_settled_def effect_after_def effect_start_def setter_defs Let_def)

lemmas start_defs = effect_start_def effect_after_def save_settled_eq delete_settled_eq
  handleSave_start_def handleDelete_start_def

lemma mounted_eq:
  "mounted = ([GET_notes], \<lparr>ui = init\<lparr>loading := True\<rparr>, inflight = [Loading_list]\<rparr>)"
  by (simp add: mounted_def effect_start_def init_def setter_defs)

text \<open>
  A step of the first grain is the session of the second in which every request is
  answered as soon as it has been sent; mounting likewise.
\<close>

lemma step_is_session:
  "session (User a # map (\<lambda>r. Answer 0 (net_answer w r)) (fst (step w a s)))
     \<lparr>ui = s, inflight = []\<rparr> =
   (fst (step w a s), \<lparr>ui = snd (step w a s), inflight = []\<rparr>)"
proof (cases a)
  case AddNew
  then show ?thesis
    by (auto simp add: page_defs start_defs setter_defs split: option.splits)
next
  case (Select i)
  then show ?thesis
    by (cases "note_ok w i")
       (auto simp add: page_defs client_defs start_defs setter_defs split: option.splits)
next
  case (EditTitle v)
  then show ?thesis by simp
next
  case (EditContent v)
  then show ?thesis by simp
next
  case Save
  show ?thesis
  proof (cases "isNewNote s")
    case True
    with Save show ?thesis
      by (cases "list_ok w")
         (auto simp add: clickSave_def handleSave_new start_defs setter_defs
            split: option.splits)
  next
    case False
    show ?thesis
    proof (cases "activeNote s")
      case None
      with Save False show ?thesis
        by (auto simp add: clickSave_def editor_rendered_def split: option.splits)
    next
      case (Some n)
      with Save False show ?thesis
        by (cases "list_ok w")
           (auto simp add: clickSave_def handleSave_existing start_defs setter_defs
              split: option.splits)
    qed
  qed
next
  case Delete
  show ?thesis
  proof (cases "activeNote s")
    case None
    with Delete show ?thesis
      by (auto simp add: clickDelete_def handleDelete_def start_defs split: option.splits)
  next
    case (Some n)
    with Delete show ?thesis
      by (cases "isNewNote s"; cases "list_ok w")
         (auto simp add: clickDelete_def handleDelete_existing start_defs setter_defs
            split: option.splits)
  qed
next
  case DismissError
  then show ?thesis by simp
qed

lemma Home_mount_is_session:
  "fst mounted = fst (Home_mount w) \<and>
   session [Answer 0 (net_answer w GET_notes)] (snd mounted) =
     ([], \<lparr>ui = snd (Home_mount w), inflight = []\<rparr>)"
  by (cases "list_ok w") (simp_all add: mounted_eq Home_mount_eq init_def setter_defs)

section \<open>Invariants of a session\<close>

lemma session_snd_Cons: "snd (session (e # tr) p) = snd (session tr (snd (fire e p)))"
  by (simp split: prod.splits)

lemma user_isNewNote:
  assumes "isNewNote s \<longrightarrow> activeId s = Some ''new''"
    and "user a s = (rqs, ps, s')"
  shows "isNewNote s' \<longrightarrow> activeId s' = Some ''new''"
  using assms
  by (cases a)
     (auto simp add: flight_defs setter_defs click_defs Let_def
        split: option.splits if_splits prod.splits)

lemma deliver_isNewNote:
  assumes "isNewNote s \<longrightarrow> activeId s = Some ''new''"
    and "deliver pr a s = Some (rqs, ps, s')"
  shows "isNewNote s' \<longrightarrow> activeId s' = Some ''new''"
  using assms
  by (cases pr; cases a)
     (auto simp add: flight_defs setter_defs Let_def
        split: option.splits if_splits prod.splits)

lemma fire_isNewNote:
  assumes "isNewNote (ui p) \<longrightarrow> activeId (ui p) = Some ''new''"
  shows "isNewNote (ui (snd (fire e p))) \<longrightarrow> activeId (ui (snd (fire e p))) = Some ''new''"
proof (cases e)
  case (User a)
  obtain rqs ps s' where u: "user a (ui p) = (rqs, ps, s')" by (cases "user a (ui p)") auto
  from user_isNewNote [OF assms u] User u show ?thesis by simp
next
  case (Answer k a)
  show ?thesis
  proof (cases "k < length (inflight p)")
    case True
    show ?thesis
    proof (cases "deliver (inflight p ! k) a (ui p)")
      case None
      with Answer True assms show ?thesis by simp
    next
      case (Some r)
      obtain rqs ps s' where r: "r = (rqs, ps, s')" by (cases r) auto
      from deliver_isNewNote [OF assms Some [unfolded r]] Answer True Some r
      show ?thesis by simp
    qed
  next
    case False
    with Answer assms show ?thesis by simp
  qed
qed

lemma session_isNewNote:
  "isNewNote (ui p) \<longrightarrow> activeId (ui p) = Some ''new'' \<Longrightarrow>
   isNewNote (ui (snd (session tr p))) \<longrightarrow> activeId (ui (snd (session tr p))) = Some ''new''"
proof (induction tr arbitrary: p)
  case Nil
  then show ?case by simp
next
  case (Cons e tr)
  from Cons.IH [OF fire_isNewNote [OF Cons.prems, of e]]
  show ?case by (simp only: session_snd_Cons)
qed

lemma encodes_selection_of: "spec_encodes s q \<Longrightarrow> q = selection_of s"
  by (cases q) (auto simp add: selection_of_def split: option.splits)

lemma user_settles:
  assumes "user AddNew s = (rqs, ps, s')"
  shows "spec_encodes s' Drafting"
  using assms
  by (auto simp add: start_defs setter_defs split: option.splits if_splits)

lemma user_keeps:
  assumes "spec_encodes s (selection_of s)"
    and "\<not> unsettles (User a) p" and "ui p = s"
    and "user a s = (rqs, ps, s')"
  shows "spec_encodes s' (selection_of s')"
proof (cases a)
  case AddNew
  with user_settles assms(4) have "spec_encodes s' Drafting" by blast
  then show ?thesis by (simp add: selection_of_def)
next
  case (Select i)
  with assms show ?thesis
    by (auto simp add: unsettles_def start_defs setter_defs selection_of_def
        split: option.splits if_splits)
next
  case (EditTitle v)
  with assms show ?thesis
    by (auto simp add: typeTitle_def selection_of_def split: option.splits if_splits)
next
  case (EditContent v)
  with assms show ?thesis
    by (auto simp add: typeContent_def selection_of_def split: option.splits if_splits)
next
  case Save
  with assms show ?thesis
    by (auto simp add: start_defs setter_defs editor_rendered_def selection_of_def
        split: option.splits if_splits)
next
  case Delete
  with assms show ?thesis
    by (auto simp add: start_defs setter_defs editor_rendered_def selection_of_def
        split: option.splits if_splits)
next
  case DismissError
  with assms show ?thesis
    by (auto simp add: setError_def selection_of_def split: option.splits)
qed

lemma deliver_settles:
  assumes "settles (Answer k a) p" and "ui p = s"
    and "deliver (inflight p ! k) a s = Some (rqs, ps, s')"
  shows "spec_encodes s' (selection_of s')"
  using assms
  by (cases "inflight p ! k"; cases a)
     (auto simp add: settles_def start_defs setter_defs selection_of_def
        split: option.splits if_splits)

lemma deliver_keeps:
  assumes "spec_encodes s (selection_of s)"
    and "\<not> unsettles (Answer k a) p" and "k < length (inflight p)" and "ui p = s"
    and "deliver (inflight p ! k) a s = Some (rqs, ps, s')"
  shows "spec_encodes s' (selection_of s')"
  using assms
  by (cases "inflight p ! k"; cases a)
     (auto simp add: unsettles_def start_defs setter_defs selection_of_def
        split: option.splits if_splits)

lemma fire_settled:
  assumes "settles e p \<or> (spec_encodes (ui p) (selection_of (ui p)) \<and> \<not> unsettles e p)"
  shows "spec_encodes (ui (snd (fire e p))) (selection_of (ui (snd (fire e p))))"
proof (cases e)
  case (User a)
  obtain rqs ps s' where u: "user a (ui p) = (rqs, ps, s')" by (cases "user a (ui p)") auto
  from assms User have "a = AddNew \<or>
      (spec_encodes (ui p) (selection_of (ui p)) \<and> \<not> unsettles (User a) p)"
    by (simp add: settles_def)
  then have "spec_encodes s' (selection_of s')"
  proof
    assume "a = AddNew"
    with user_settles u have "spec_encodes s' Drafting" by blast
    then show ?thesis by (simp add: selection_of_def)
  next
    assume "spec_encodes (ui p) (selection_of (ui p)) \<and> \<not> unsettles (User a) p"
    then show ?thesis using user_keeps [OF _ _ refl u] by blast
  qed
  with User u show ?thesis by simp
next
  case (Answer k a)
  show ?thesis
  proof (cases "k < length (inflight p)")
    case True
    show ?thesis
    proof (cases "deliver (inflight p ! k) a (ui p)")
      case None
      with Answer True assms show ?thesis
        by (cases "inflight p ! k"; cases a) (auto simp add: settles_def)
    next
      case (Some r)
      obtain rqs ps s' where r: "r = (rqs, ps, s')" by (cases r) auto
      from assms Answer have "settles (Answer k a) p \<or>
          (spec_encodes (ui p) (selection_of (ui p)) \<and> \<not> unsettles (Answer k a) p)"
        by simp
      then have "spec_encodes s' (selection_of s')"
      proof
        assume "settles (Answer k a) p"
        from deliver_settles [OF this refl Some [unfolded r]] show ?thesis .
      next
        assume "spec_encodes (ui p) (selection_of (ui p)) \<and> \<not> unsettles (Answer k a) p"
        then show ?thesis using deliver_keeps [OF _ _ True refl Some [unfolded r]] by blast
      qed
      with Answer True Some r show ?thesis by simp
    qed
  next
    case False
    with Answer assms show ?thesis by (auto simp add: settles_def)
  qed
qed

lemma session_settled:
  "b \<longrightarrow> spec_encodes (ui p) (selection_of (ui p)) \<Longrightarrow> settled b tr p \<Longrightarrow>
   spec_encodes (ui (snd (session tr p))) (selection_of (ui (snd (session tr p))))"
proof (induction tr arbitrary: b p)
  case Nil
  then show ?case by simp
next
  case (Cons e tr)
  let ?b = "settles e p \<or> (b \<and> \<not> unsettles e p)"
  have "?b \<longrightarrow> spec_encodes (ui (snd (fire e p))) (selection_of (ui (snd (fire e p))))"
    using fire_settled [of e p] Cons.prems(1) by blast
  moreover from Cons.prems(2) have "settled ?b tr (snd (fire e p))" by simp
  ultimately show ?case using Cons.IH by (simp only: session_snd_Cons)
qed

section \<open>The concrete sessions\<close>

lemma session_failed_fetch_ui:
  "ui (snd (session session_failed_fetch (snd mounted))) = st_draft_failed"
  by (simp add: session_failed_fetch_def mounted_eq init_def st_draft_failed_eq start_defs
      setter_defs click_defs NoteEditor_init_def placeholder_def)

lemma session_late_answer_ui:
  "ui (snd (session session_late_answer (snd mounted))) =
     \<lparr>notes_list = [note1], activeId = Some ''new'', activeNote = Some note1,
      isNewNote = True, loading = False, error = None,
      editor = Some \<lparr>localTitle = ''Hi'', localContent = []\<rparr>\<rparr>"
  by (simp add: session_late_answer_def mounted_eq init_def start_defs
      setter_defs click_defs NoteEditor_init_def placeholder_def note1_def)

lemma session_recovered_ui:
  "ui (snd (session session_recovered (snd mounted))) =
     \<lparr>notes_list = [note1, note2], activeId = Some ''1'', activeNote = Some note1,
      isNewNote = False, loading = False, error = Some ''Could not fetch note'',
      editor = Some \<lparr>localTitle = ''Hi'', localContent = []\<rparr>\<rparr>"
  by (simp add: session_recovered_def mounted_eq init_def start_defs
      setter_defs click_defs NoteEditor_init_def placeholder_def note1_def note2_def)

lemma session_draft_ui:
  "ui (snd (session session_draft (snd mounted))) =
     \<lparr>notes_list = [note1], activeId = Some ''new'', activeNote = Some placeholder,
      isNewNote = True, loading = False, error = Some ''Could not fetch note'',
      editor = Some \<lparr>localTitle = [], localContent = []\<rparr>\<rparr>"
  by (simp add: session_draft_def mounted_eq init_def start_defs
      setter_defs click_defs NoteEditor_init_def placeholder_def note1_def)

lemma session_recovered_settled: "settled True session_recovered (snd mounted)"
  by (simp add: session_recovered_def mounted_eq init_def start_defs settles_def
      unsettles_def setter_defs note1_def note2_def)

lemma session_draft_settled: "settled True session_draft (snd mounted)"
  by (simp add: session_draft_def mounted_eq init_def start_defs settles_def
      unsettles_def setter_defs note1_def)

section \<open>Selection\<close>

text \<open>
  C1, as stated: after every sequence of operations the triple
  \<open>(activeId, activeNote, isNewNote)\<close> encodes exactly one of Idle, Drafting and Viewing(id),
  and \<open>isNewNote\<close> implies that the placeholder draft is the active note. Neither holds.

  In the first session the user opens a draft, types a title and clicks note \<open>"1"\<close> in the
  list, and the fetch is rejected: \<^verbatim>\<open>handleSelectNote\<close> has already stored the new
  \<open>activeId\<close> and cleared \<open>isNewNote\<close>, the rejected fetch stores nothing, and the placeholder
  stays in \<open>activeNote\<close>. The sidebar highlights \<open>"1"\<close>, the editor holds the draft in "Save"
  mode, and the triple encodes none of the three states.

  In the second session the user clicks note \<open>"1"\<close> and then "+" before the fetched note
  arrives. The callback of the fetch stores the note all the same: \<open>isNewNote\<close> holds and
  the active note is note \<open>"1"\<close>.
\<close>

theorem C1_counterexample:
  "ui (snd (session session_failed_fetch (snd mounted))) = st_draft_failed \<and>
   st_draft_failed =
     snd (run [(backend_up, AddNew), (backend_up, EditTitle ''Hi''),
               (backend_down, Select ''1'')] (snd (Home_mount backend_up))) \<and>
   selectedId st_draft_failed = Some ''1'' \<and>
   activeNote st_draft_failed = Some placeholder \<and>
   \<not> isNewNote st_draft_failed \<and>
   \<not> (\<exists>q. spec_encodes st_draft_failed q) \<and>
   isNewNote (ui (snd (session session_late_answer (snd mounted)))) \<and>
   activeNote (ui (snd (session session_late_answer (snd mounted)))) = Some note1 \<and>
   \<not> (\<exists>q. spec_encodes (ui (snd (session session_late_answer (snd mounted)))) q)"
proof -
  have a: "st_draft_failed =
     snd (run [(backend_up, AddNew), (backend_up, EditTitle ''Hi''),
               (backend_down, Select ''1'')] (snd (Home_mount backend_up)))"
    by (simp only: st_draft_failed_def st_idle_def)
  have b: "selectedId st_draft_failed = Some ''1''"
    by (simp add: st_draft_failed_eq selectedId_def)
  have c: "activeNote st_draft_failed = Some placeholder"
    by (simp add: st_draft_failed_eq)
  have d: "\<not> isNewNote st_draft_failed"
    by (simp add: st_draft_failed_eq)
  have "\<not> spec_encodes st_draft_failed q" for q
    by (cases q) (auto simp add: st_draft_failed_eq placeholder_def)
  then have e: "\<not> (\<exists>q. spec_encodes st_draft_failed q)" by blast
  have f: "isNewNote (ui (snd (session session_late_answer (snd mounted))))"
    by (simp add: session_late_answer_ui)
  have g: "activeNote (ui (snd (session session_late_answer (snd mounted)))) = Some note1"
    by (simp add: session_late_answer_ui)
  have "\<not> spec_encodes (ui (snd (session session_late_answer (snd mounted)))) q" for q
    by (cases q) (auto simp add: session_late_answer_ui placeholder_def note1_def)
  then have h: "\<not> (\<exists>q. spec_encodes (ui (snd (session session_late_answer (snd mounted)))) q)"
    by blast
  show ?thesis
    by (intro conjI) (rule session_failed_fetch_ui a b c d e f g h)+
qed

text \<open>
  C1, amended. For every session on the mounted page, with user operations and answers
  to requests in any order:

  \<^item> \<open>isNewNote\<close> implies \<open>activeId = "new"\<close>, and the sidebar highlights no note.

  \<^item> The triple encodes exactly one of Idle, Drafting and Viewing(id), and with
    \<open>isNewNote\<close> the placeholder draft is the active note, at the end of every session in
    which the last event that can take the triple out of the encodings is followed by
    one that brings it back (\<open>settled\<close>). Out: a Select that changes the selection, and
    a fetched note that arrives when it is not the selected one or while a note is being
    created. Back: "+", the completion of a successful save or delete, and a fetched note
    that arrives while it is the selected one.
\<close>

theorem C1_selection_encoding:
  assumes "s = ui (snd (session tr (snd mounted)))"
  shows "(isNewNote s \<longrightarrow> activeId s = Some ''new'' \<and> selectedId s = None) \<and>
         (settled True tr (snd mounted) \<longrightarrow>
            (\<exists>!q. spec_encodes s q) \<and> (isNewNote s \<longrightarrow> spec_encodes s Drafting))"
proof (intro conjI impI)
  have start: "isNewNote (ui (snd mounted)) \<longrightarrow> activeId (ui (snd mounted)) = Some ''new''"
    by (simp add: mounted_eq init_def)
  assume "isNewNote s"
  with session_isNewNote [OF start, of tr] assms
  show "activeId s = Some ''new''" and "selectedId s = None"
    by (simp_all add: selectedId_def)
next
  assume ok: "settled True tr (snd mounted)"
  have "True \<longrightarrow> spec_encodes (ui (snd mounted)) (selection_of (ui (snd mounted)))"
    by (simp add: mounted_eq init_def selection_of_def)
  from session_settled [OF this ok] assms have e: "spec_encodes s (selection_of s)" by simp
  then show "\<exists>!q. spec_encodes s q" using encodes_selection_of by blast
  assume "isNewNote s"
  with e show "spec_encodes s Drafting" by (simp add: selection_of_def)
qed

theorem C1_selection_encoding_witness:
  "settled True session_recovered (snd mounted) \<and>
   (\<exists>!q. spec_encodes (ui (snd (session session_recovered (snd mounted)))) q) \<and>
   settled True session_draft (snd mounted) \<and>
   isNewNote (ui (snd (session session_draft (snd mounted)))) \<and>
   activeId (ui (snd (session session_draft (snd mounted)))) = Some ''new'' \<and>
   selectedId (ui (snd (session session_draft (snd mounted)))) = None \<and>
   spec_encodes (ui (snd (session session_draft (snd mounted)))) Drafting"
proof -
  have n: "isNewNote (ui (snd (session session_draft (snd mounted))))"
    by (simp add: session_draft_ui)
  from C1_selection_encoding [OF refl, of session_recovered] session_recovered_settled
  have 1: "\<exists>!q. spec_encodes (ui (snd (session session_recovered (snd mounted)))) q"
    by blast
  from C1_selection_encoding [OF refl, of session_draft] session_draft_settled n
  have 2: "activeId (ui (snd (session session_draft (snd mounted)))) = Some ''new''"
    and 3: "selectedId (ui (snd (session session_draft (snd mounted)))) = None"
    and 4: "spec_encodes (ui (snd (session session_draft (snd mounted)))) Drafting"
    by blast+
  show ?thesis
    by (intro conjI) (rule session_recovered_settled 1 session_draft_settled n 2 3 4)+
qed

text \<open>
  C2, as stated: when the fetch of a Select fails, the selection state remains what it
  was before. It does not hold from Drafting: \<^verbatim>\<open>handleSelectNote\<close> clears \<open>isNewNote\<close> and
  stores the id before the fetch is issued, and nothing undoes that when the fetch fails.
\<close>

theorem C2_counterexample:
  "note_ok backend_down ''1'' = None \<and>
   fst (step backend_down (Select ''1'') st_drafting) = [GET_note ''1''] \<and>
   selection_of st_drafting = Drafting \<and>
   selection_of (snd (step backend_down (Select ''1'') st_drafting)) \<noteq> Drafting \<and>
   isNewNote st_drafting \<and>
   \<not> isNewNote (snd (step backend_down (Select ''1'') st_drafting)) \<and>
   activeId st_drafting = Some ''new'' \<and>
   activeId (snd (step backend_down (Select ''1'') st_drafting)) = Some ''1''"
  by (simp add: st_drafting_eq page_defs setter_defs client_defs backend_down_def
      selection_of_def placeholder_def)

text \<open>
  C2, amended. When a Select issues a fetch and the fetch fails, the error slot holds the
  LoadNoteFailed message, the list cache is unchanged, and the switch made before the
  fetch stays: \<open>activeId\<close> is the selected id and \<open>isNewNote\<close> is false. When the state before
  was not Drafting, nothing else changes: the note in the editor, the draft buffer and
  with them the state the page presents are what they were, so the page is not switched
  to viewing the selected note.
\<close>

theorem C2_select_fetch_failure:
  assumes "i \<noteq> []" and "note_ok w i = None" and "activeId s \<noteq> Some i \<or> isNewNote s"
  shows "fst (step w (Select i) s) = [GET_note i] \<and>
         error (snd (step w (Select i) s)) = Some ''Could not fetch note'' \<and>
         activeId (snd (step w (Select i) s)) = Some i \<and>
         \<not> isNewNote (snd (step w (Select i) s)) \<and>
         notes_list (snd (step w (Select i) s)) = notes_list s \<and>
         (\<not> isNewNote s \<longrightarrow>
            snd (step w (Select i) s) =
              s\<lparr>activeId := Some i, loading := False,
                error := Some ''Could not fetch note''\<rparr> \<and>
            selection_of (snd (step w (Select i) s)) = selection_of s)"
  using assms
  by (auto simp add: page_defs setter_defs client_defs selection_of_def)

theorem C2_select_fetch_failure_witness:
  "fst (step backend_down (Select ''1'') st_idle) = [GET_note ''1''] \<and>
   snd (step backend_down (Select ''1'') st_idle) =
     st_idle\<lparr>activeId := Some ''1'', error := Some ''Could not fetch note''\<rparr> \<and>
   selection_of (snd (step backend_down (Select ''1'') st_idle)) = Idle"
  using C2_select_fetch_failure [of "''1''" backend_down st_idle]
  by (simp add: st_idle_eq backend_down_def selection_of_def)

section \<open>Save\<close>

text \<open>
  C3. Save with an empty title and an empty content is a no-op: no request is issued and
  the state is unchanged. The guard is the disabled Save button of the editor, the only
  caller of \<^verbatim>\<open>handleSave\<close>.
\<close>

theorem C3_save_empty_noop:
  "editor s = Some e \<Longrightarrow> localTitle e = [] \<Longrightarrow> localContent e = [] \<Longrightarrow>
   step w Save s = ([], s)"
  by (simp add: clickSave_def)

theorem C3_save_empty_noop_witness:
  "editor st_drafting = Some \<lparr>localTitle = [], localContent = []\<rparr> \<and>
   step backend_up Save st_drafting = ([], st_drafting)"
proof -
  have e: "editor st_drafting = Some \<lparr>localTitle = [], localContent = []\<rparr>"
    by (simp add: st_drafting_eq)
  from C3_save_empty_noop [OF e] e show ?thesis by simp
qed

text \<open>
  C4. When the create or update request of a save fails, the only cells that change are
  the error slot, which holds the SaveFailed message, and the loading flag, which is off
  again: the selection, the draft buffer and the list cache are what they were, and no
  list request is sent.
\<close>

theorem C4_save_failure:
  "(isNewNote s \<and> create_ok w t c = None \<longrightarrow>
      handleSave w t c s =
        ([POST_note t c], s\<lparr>loading := False, error := Some ''Could not save note''\<rparr>)) \<and>
   (\<not> isNewNote s \<and> activeNote s = Some n \<and> update_ok w (note_id n) t c = None \<longrightarrow>
      handleSave w t c s =
        ([PUT_note (note_id n) t c],
         s\<lparr>loading := False, error := Some ''Could not save note''\<rparr>))"
  by (simp add: handleSave_new handleSave_existing)

theorem C4_save_failure_witness:
  "handleSave backend_down ''Hi'' [] st_drafting =
     ([POST_note ''Hi'' []], st_drafting\<lparr>error := Some ''Could not save note''\<rparr>) \<and>
   handleSave backend_down ''Hi'' ''x'' st_viewing =
     ([PUT_note ''1'' ''Hi'' ''x''], st_viewing\<lparr>error := Some ''Could not save note''\<rparr>)"
  using C4_save_failure [of st_drafting backend_down "''Hi''" "[]" note1]
    C4_save_failure [of st_viewing backend_down "''Hi''" "''x''" note1]
  by (simp add: st_drafting_eq st_viewing_eq backend_defs)

text \<open>
  C6, as stated: after every successful save the list cache is refreshed, so that after
  a successful create it contains the new note. It does not hold when the list request
  that follows the create is rejected: the note has been created, the list cache is what
  it was, and the error slot holds the LoadListFailed message. \<^verbatim>\<open>refresh()\<close> is not
  awaited and handles its own failure.
\<close>

theorem C6_counterexample:
  "isNewNote st_typed \<and>
   create_ok backend_list_down ''Yo'' [] =
     Some \<lparr>note_id = ''2'', title = ''Yo'', content = [], created_at = ''t2'',
           updated_at = ''t2''\<rparr> \<and>
   fst (step backend_list_down Save st_typed) = [POST_note ''Yo'' [], GET_notes] \<and>
   notes_list (snd (step backend_list_down Save st_typed)) = notes_list st_typed \<and>
   \<lparr>note_id = ''2'', title = ''Yo'', content = [], created_at = ''t2'', updated_at = ''t2''\<rparr>
     \<notin> set (notes_list (snd (step backend_list_down Save st_typed))) \<and>
   error (snd (step backend_list_down Save st_typed)) = Some ''Could not load notes''"
  by (simp add: st_typed_eq clickSave_def editor_rendered_def handleSave_new
      backend_list_down_def backend_defs)

text \<open>
  C6, amended. A save whose request succeeds: while a note is being created the request
  is create(title, content), while an existing note is loaded it is update(id, title,
  content) with the id of that note; a list request follows. Afterwards the triple is the
  Idle one and the editor is gone. When the list request succeeds the list cache is its
  answer, so it holds the created note iff the backend lists it; when the list request
  fails the cache stays as it was and the error slot holds the LoadListFailed message.
\<close>

theorem C6_save_success:
  assumes "(isNewNote s \<and> create_ok w t c = Some m \<and> rq = POST_note t c) \<or>
           (\<not> isNewNote s \<and> activeNote s = Some n \<and>
            update_ok w (note_id n) t c = Some m \<and> rq = PUT_note (note_id n) t c)"
  shows "handleSave w t c s =
     ([rq, GET_notes],
      s\<lparr>notes_list := (case list_ok w of None \<Rightarrow> notes_list s | Some d \<Rightarrow> d),
        activeId := None, activeNote := None, isNewNote := False, loading := False,
        error := (case list_ok w of None \<Rightarrow> Some ''Could not load notes''
                  | Some d \<Rightarrow> error s),
        editor := None\<rparr>) \<and>
     spec_encodes (snd (handleSave w t c s)) Idle \<and>
     selection_of (snd (handleSave w t c s)) = Idle"
  using assms by (auto simp add: handleSave_new handleSave_existing selection_of_def)

theorem C6_save_success_witness:
  "handleSave backend_up ''Yo'' [] st_drafting =
     ([POST_note ''Yo'' [], GET_notes], st_idle) \<and>
   handleSave backend_up ''Hi'' ''x'' st_viewing =
     ([PUT_note ''1'' ''Hi'' ''x'', GET_notes], st_idle) \<and>
   spec_encodes st_idle Idle"
  using C6_save_success [of st_drafting backend_up "''Yo''" "[]"
      "\<lparr>note_id = ''2'', title = ''Yo'', content = [], created_at = ''t2'',
        updated_at = ''t2''\<rparr>" "POST_note ''Yo'' []" note1]
    C6_save_success [of st_viewing backend_up "''Hi''" "''x''"
      "note1\<lparr>title := ''Hi'', content := ''x''\<rparr>" "PUT_note ''1'' ''Hi'' ''x''" note1]
  by (simp add: st_drafting_eq st_viewing_eq st_idle_eq backend_defs)

text \<open>
  C10. \<^verbatim>\<open>handleSave\<close> called while no note is active and nothing is being created sends
  neither a create nor an update request, and still resets the selection to Idle and
  reloads the list.
\<close>

theorem C10_save_nothing_active:
  "activeNote s = None \<Longrightarrow> \<not> isNewNote s \<Longrightarrow>
   handleSave w t c s =
     ([GET_notes],
      s\<lparr>notes_list := (case list_ok w of None \<Rightarrow> notes_list s | Some d \<Rightarrow> d),
        activeId := None, loading := False,
        error := (case list_ok w of None \<Rightarrow> Some ''Could not load notes''
                  | Some d \<Rightarrow> error s)\<rparr>) \<and>
   spec_encodes (snd (handleSave w t c s)) Idle"
  by (cases "activeId s"; cases "list_ok w")
     (simp_all add: page_defs client_defs setter_defs)

theorem C10_save_nothing_active_witness:
  "activeNote st_idle_failed = None \<and> \<not> isNewNote st_idle_failed \<and>
   activeId st_idle_failed = Some ''1'' \<and>
   handleSave backend_up ''x'' ''y'' st_idle_failed =
     ([GET_notes], st_idle\<lparr>error := Some ''Could not fetch note''\<rparr>)"
  using C10_save_nothing_active [of st_idle_failed backend_up "''x''" "''y''"]
  by (simp add: st_idle_failed_eq st_idle_eq backend_defs)

section \<open>Delete\<close>

text \<open>
  C5, as stated: Delete outside Viewing(id) is not valid. It does not hold. The page
  shows note \<open>"1"\<close>, the user clicks note \<open>"2"\<close> and the fetch is rejected: the sidebar
  highlights \<open>"2"\<close>, note \<open>"1"\<close> is still loaded in the editor, and the triple encodes no
  Viewing(id). The Delete button is there and enabled, and it deletes note \<open>"1"\<close>.
\<close>

theorem C5_counterexample:
  "st_view_failed =
     snd (run [(backend_two, Select ''1''), (backend_down, Select ''2'')]
            (snd (Home_mount backend_two))) \<and>
   selectedId st_view_failed = Some ''2'' \<and>
   \<not> (\<exists>i. spec_encodes st_view_failed (Viewing i)) \<and>
   fst (step backend_two Delete st_view_failed) = [DELETE_note ''1'', GET_notes] \<and>
   fst (step backend_down Delete st_view_failed) = [DELETE_note ''1'']"
proof -
  have a: "st_view_failed =
     snd (run [(backend_two, Select ''1''), (backend_down, Select ''2'')]
            (snd (Home_mount backend_two)))"
    by (simp only: st_view_failed_def)
  have b: "selectedId st_view_failed = Some ''2''"
    by (simp add: st_view_failed_eq selectedId_def)
  have c: "\<not> (\<exists>i. spec_encodes st_view_failed (Viewing i))"
    by (simp add: st_view_failed_eq note1_def)
  have v: "editor st_view_failed \<noteq> None" "\<not> isNewNote st_view_failed"
    "activeNote st_view_failed = Some note1" "\<not> loading st_view_failed"
    by (simp_all add: st_view_failed_eq)
  have d: "fst (step backend_two Delete st_view_failed) = [DELETE_note ''1'', GET_notes]"
    using v by (auto simp add: clickDelete_def editor_rendered_def handleDelete_existing
        backend_two_def note1_def)
  have e: "fst (step backend_down Delete st_view_failed) = [DELETE_note ''1'']"
    using v by (auto simp add: clickDelete_def editor_rendered_def handleDelete_existing
        backend_down_def note1_def)
  show ?thesis by (intro conjI) (rule a b c d e)+
qed

text \<open>
  C5, amended. When an existing note is loaded in the editor (as in Viewing(id)) and its
  delete request fails, the only cells that change are the error slot, which holds the
  DeleteFailed message, and the loading flag: the triple, the draft buffer and the list
  cache are what they were, and no list request is sent. When no note is loaded or a note
  is being created (as in Idle and in Drafting) Delete sends nothing and changes nothing.
\<close>

theorem C5_delete_failure:
  "(activeNote s = Some n \<and> \<not> isNewNote s \<and> \<not> delete_ok w (note_id n) \<longrightarrow>
      handleDelete w s =
        ([DELETE_note (note_id n)],
         s\<lparr>loading := False, error := Some ''Could not delete note''\<rparr>)) \<and>
   (activeNote s = None \<or> isNewNote s \<longrightarrow> handleDelete w s = ([], s)) \<and>
   (spec_encodes s (Viewing i) \<and> \<not> delete_ok w i \<longrightarrow>
      handleDelete w s =
        ([DELETE_note i], s\<lparr>loading := False, error := Some ''Could not delete note''\<rparr>)) \<and>
   (spec_encodes s Idle \<or> spec_encodes s Drafting \<longrightarrow> handleDelete w s = ([], s))"
proof (intro conjI impI)
  assume "activeNote s = Some n \<and> \<not> isNewNote s \<and> \<not> delete_ok w (note_id n)"
  then show "handleDelete w s =
        ([DELETE_note (note_id n)],
         s\<lparr>loading := False, error := Some ''Could not delete note''\<rparr>)"
    by (simp add: handleDelete_existing)
next
  assume "activeNote s = None \<or> isNewNote s"
  then show "handleDelete w s = ([], s)"
    by (auto simp add: handleDelete_def split: option.splits)
next
  assume "spec_encodes s (Viewing i) \<and> \<not> delete_ok w i"
  then show "handleDelete w s =
        ([DELETE_note i], s\<lparr>loading := False, error := Some ''Could not delete note''\<rparr>)"
    by (auto simp add: handleDelete_existing split: option.splits)
next
  assume "spec_encodes s Idle \<or> spec_encodes s Drafting"
  then show "handleDelete w s = ([], s)"
    by (auto simp add: handleDelete_def split: option.splits)
qed

theorem C5_delete_failure_witness:
  "spec_encodes st_viewing (Viewing ''1'') \<and>
   handleDelete backend_down st_viewing =
     ([DELETE_note ''1''], st_viewing\<lparr>error := Some ''Could not delete note''\<rparr>) \<and>
   spec_encodes st_drafting Drafting \<and>
   handleDelete backend_up st_drafting = ([], st_drafting) \<and>
   spec_encodes st_idle Idle \<and>
   handleDelete backend_up st_idle = ([], st_idle)"
proof -
  have v: "spec_encodes st_viewing (Viewing ''1'')" "activeNote st_viewing = Some note1"
    "\<not> isNewNote st_viewing" "\<not> delete_ok backend_down ''1''" "note_id note1 = ''1''"
    "\<not> loading st_viewing"
    by (simp_all add: st_viewing_eq backend_defs)
  have d: "spec_encodes st_drafting Drafting" "isNewNote st_drafting"
    by (simp_all add: st_drafting_eq)
  have i: "spec_encodes st_idle Idle" "activeNote st_idle = None"
    by (simp_all add: st_idle_eq)
  from C5_delete_failure [of st_viewing note1 backend_down "''1''"] v
  have 1: "handleDelete backend_down st_viewing =
     ([DELETE_note ''1''], st_viewing\<lparr>error := Some ''Could not delete note''\<rparr>)"
    by (simp add: st_viewing_eq)
  from C5_delete_failure [of st_drafting note1 backend_up "''1''"] d
  have 2: "handleDelete backend_up st_drafting = ([], st_drafting)" by blast
  from C5_delete_failure [of st_idle note1 backend_up "''1''"] i
  have 3: "handleDelete backend_up st_idle = ([], st_idle)" by blast
  show ?thesis by (intro conjI) (rule v(1) 1 d(1) 2 i(1) 3)+
qed

section \<open>Edit\<close>

text \<open>
  C7. Typing into the title or the content field sends no request and changes no cell
  but the draft buffer of the editor: list cache, selection and error slot are what they
  were. In an enabled editor the typed value is stored in the field's local cell; without
  an editor (nothing selected, nothing being created) the state is unchanged.
\<close>

theorem C7_edit_frame:
  assumes "a = EditTitle v \<or> a = EditContent v"
  shows "fst (step w a s) = [] \<and>
         (snd (step w a s))\<lparr>editor := editor s\<rparr> = s \<and>
         (editor s = None \<or> \<not> editor_rendered s \<longrightarrow> snd (step w a s) = s) \<and>
         (\<forall>e. editor s = Some e \<and> editor_rendered s \<and> \<not> loading s \<longrightarrow>
            editor (snd (step w a s)) =
              Some (if a = EditTitle v then e\<lparr>localTitle := v\<rparr>
                    else e\<lparr>localContent := v\<rparr>))"
  using assms
  by (auto simp add: typeTitle_def typeContent_def split: option.splits)

theorem C7_edit_frame_witness:
  "fst (step backend_up (EditTitle ''Hi'') st_drafting) = [] \<and>
   (snd (step backend_up (EditTitle ''Hi'') st_drafting))\<lparr>editor := editor st_drafting\<rparr> =
     st_drafting \<and>
   editor (snd (step backend_up (EditTitle ''Hi'') st_drafting)) =
     Some \<lparr>localTitle = ''Hi'', localContent = []\<rparr> \<and>
   snd (step backend_up (EditContent ''x'') st_idle) = st_idle"
proof -
  have e: "editor st_drafting = Some \<lparr>localTitle = [], localContent = []\<rparr>"
    "editor_rendered st_drafting" "\<not> loading st_drafting"
    by (simp_all add: st_drafting_eq editor_rendered_def)
  have n: "editor st_idle = None" by (simp add: st_idle_eq)
  from C7_edit_frame [of "EditTitle ''Hi''" "''Hi''" backend_up st_drafting] e
  have 1: "fst (step backend_up (EditTitle ''Hi'') st_drafting) = []"
    and 2: "(snd (step backend_up (EditTitle ''Hi'') st_drafting))\<lparr>editor := editor st_drafting\<rparr>
              = st_drafting"
    and 3: "editor (snd (step backend_up (EditTitle ''Hi'') st_drafting)) =
              Some \<lparr>localTitle = ''Hi'', localContent = []\<rparr>"
    by simp_all
  from C7_edit_frame [of "EditContent ''x''" "''x''" backend_up st_idle] n
  have 4: "snd (step backend_up (EditContent ''x'') st_idle) = st_idle"
    by simp
  from 1 2 3 4 show ?thesis by (intro conjI)
qed

section \<open>The list cache\<close>

text \<open>
  C8. Mounting the page sends one list request and stores its answer. An operation sends
  a list request iff it sent a create, update or delete request that succeeded; the
  list request is then the second and last request of the operation, after that one.
  Typing, selecting, opening a draft and failed requests send none. An enabled Save
  sends create (while a note is being created) or update (of the loaded note), an enabled
  Delete sends delete of the loaded note, and each is followed by the list request
  exactly when it succeeds. The list cache changes only with a list request, and then it
  is the whole answer (the old cache when that request fails). The Save button exists
  only while a note is loaded or being created, so a click on it always sends a create or
  an update request first.
\<close>

theorem C8_list_refresh:
  assumes "rqs = fst (step w a s)" and "s' = snd (step w a s)"
  shows
    "fst (Home_mount w) = [GET_notes] \<and>
     notes_list (snd (Home_mount w)) = (case list_ok w of None \<Rightarrow> [] | Some d \<Rightarrow> d) \<and>
     filter (\<lambda>r. r = GET_notes) rqs =
       (if list_ex (mutation_succeeded w) rqs then [GET_notes] else []) \<and>
     notes_list s' =
       (if GET_notes \<in> set rqs
        then (case list_ok w of None \<Rightarrow> notes_list s | Some d \<Rightarrow> d)
        else notes_list s) \<and>
     (GET_notes \<in> set rqs \<longrightarrow>
        rqs = [hd rqs, GET_notes] \<and> mutation_succeeded w (hd rqs)) \<and>
     (GET_notes \<notin> set rqs \<longrightarrow>
        length rqs \<le> 1 \<and> \<not> list_ex (mutation_succeeded w) rqs) \<and>
     (a = Save \<and> editor s = Some e \<and> \<not> loading s \<and>
      (localTitle e \<noteq> [] \<or> localContent e \<noteq> []) \<and> isNewNote s \<longrightarrow>
        rqs = POST_note (localTitle e) (localContent e) #
              (if create_ok w (localTitle e) (localContent e) = None then []
               else [GET_notes])) \<and>
     (a = Save \<and> editor s = Some e \<and> \<not> loading s \<and>
      (localTitle e \<noteq> [] \<or> localContent e \<noteq> []) \<and>
      \<not> isNewNote s \<and> activeNote s = Some n \<longrightarrow>
        rqs = PUT_note (note_id n) (localTitle e) (localContent e) #
              (if update_ok w (note_id n) (localTitle e) (localContent e) = None then []
               else [GET_notes])) \<and>
     (a = Delete \<and> editor s = Some e \<and> \<not> loading s \<and>
      \<not> isNewNote s \<and> activeNote s = Some n \<longrightarrow>
        rqs = DELETE_note (note_id n) #
              (if delete_ok w (note_id n) then [GET_notes] else []))"
proof -
  have m: "fst (Home_mount w) = [GET_notes]"
    "notes_list (snd (Home_mount w)) = (case list_ok w of None \<Rightarrow> [] | Some d \<Rightarrow> d)"
    by (simp_all add: Home_mount_eq init_def)
  have r: "filter (\<lambda>r. r = GET_notes) rqs =
       (if list_ex (mutation_succeeded w) rqs then [GET_notes] else [])"
    "notes_list s' =
       (if GET_notes \<in> set rqs
        then (case list_ok w of None \<Rightarrow> notes_list s | Some d \<Rightarrow> d)
        else notes_list s)"
    using step_refresh [of w a s] assms by simp_all
  have o: "GET_notes \<in> set rqs \<longrightarrow>
        rqs = [hd rqs, GET_notes] \<and> mutation_succeeded w (hd rqs)"
    "GET_notes \<notin> set rqs \<longrightarrow>
        length rqs \<le> 1 \<and> \<not> list_ex (mutation_succeeded w) rqs"
    using step_requests [of w a s] assms by simp_all
  have c: "a = Save \<and> editor s = Some e \<and> \<not> loading s \<and>
      (localTitle e \<noteq> [] \<or> localContent e \<noteq> []) \<and> isNewNote s \<longrightarrow>
        rqs = POST_note (localTitle e) (localContent e) #
              (if create_ok w (localTitle e) (localContent e) = None then []
               else [GET_notes])"
    using assms by (auto simp add: clickSave_def editor_rendered_def handleSave_new)
  have u: "a = Save \<and> editor s = Some e \<and> \<not> loading s \<and>
      (localTitle e \<noteq> [] \<or> localContent e \<noteq> []) \<and>
      \<not> isNewNote s \<and> activeNote s = Some n \<longrightarrow>
        rqs = PUT_note (note_id n) (localTitle e) (localContent e) #
              (if update_ok w (note_id n) (localTitle e) (localContent e) = None then []
               else [GET_notes])"
    using assms by (auto simp add: clickSave_def editor_rendered_def handleSave_existing)
  have d: "a = Delete \<and> editor s = Some e \<and> \<not> loading s \<and>
      \<not> isNewNote s \<and> activeNote s = Some n \<longrightarrow>
        rqs = DELETE_note (note_id n) #
              (if delete_ok w (note_id n) then [GET_notes] else [])"
    using assms by (auto simp add: clickDelete_def editor_rendered_def handleDelete_existing)
  show ?thesis by (intro conjI) (rule m r o c u d)+
qed

theorem C8_list_refresh_witness:
  "fst (step backend_up Save st_typed) = [POST_note ''Yo'' [], GET_notes] \<and>
   fst (step backend_down Save st_typed) = [POST_note ''Yo'' []] \<and>
   notes_list (snd (step backend_down Save st_typed)) = notes_list st_typed \<and>
   fst (step backend_up Save st_viewing) = [PUT_note ''1'' ''Hi'' [], GET_notes] \<and>
   fst (step backend_up Delete st_viewing) = [DELETE_note ''1'', GET_notes] \<and>
   notes_list (snd (step backend_up Delete st_viewing)) = [note1]"
proof -
  let ?e = "\<lparr>localTitle = ''Yo'', localContent = []\<rparr>"
  let ?v = "\<lparr>localTitle = ''Hi'', localContent = []\<rparr>"
  have t: "editor st_typed = Some ?e" "\<not> loading st_typed" "isNewNote st_typed"
    by (simp_all add: st_typed_eq)
  have v: "editor st_viewing = Some ?v" "\<not> loading st_viewing" "\<not> isNewNote st_viewing"
    "activeNote st_viewing = Some note1"
    by (simp_all add: st_viewing_eq)
  from C8_list_refresh [OF refl refl, of backend_up Save st_typed ?e note1] t
  have 1: "fst (step backend_up Save st_typed) = [POST_note ''Yo'' [], GET_notes]"
    by (simp add: backend_defs)
  from C8_list_refresh [OF refl refl, of backend_down Save st_typed ?e note1] t
  have 2: "fst (step backend_down Save st_typed) = [POST_note ''Yo'' []]"
    by (simp add: backend_defs)
  from C8_list_refresh [OF refl refl, of backend_down Save st_typed ?e note1] 2
  have 3: "notes_list (snd (step backend_down Save st_typed)) = notes_list st_typed"
    by simp
  from C8_list_refresh [OF refl refl, of backend_up Save st_viewing ?v note1] v
  have 4: "fst (step backend_up Save st_viewing) = [PUT_note ''1'' ''Hi'' [], GET_notes]"
    by (simp add: backend_defs)
  from C8_list_refresh [OF refl refl, of backend_up Delete st_viewing ?v note1] v
  have 5: "fst (step backend_up Delete st_viewing) = [DELETE_note ''1'', GET_notes]"
    by (simp add: backend_defs)
  from C8_list_refresh [OF refl refl, of backend_up Delete st_viewing ?v note1] 5
  have 6: "notes_list (snd (step backend_up Delete st_viewing)) = [note1]"
    by (simp add: backend_defs)
  show ?thesis by (intro conjI) (rule 1 2 3 4 5 6)+
qed

section \<open>The placeholder id\<close>

text \<open>
  C9 says that the placeholder id \<open>"new"\<close> of a draft is never sent to the backend. The
  page sends it: the user opens a draft, types a title, clicks note \<open>"1"\<close> while the
  backend fails, and then presses Save, or Delete. The draft is still in the editor, now
  in "Save" mode, and the handlers address the backend with \<^verbatim>\<open>activeNote.id\<close>.
\<close>

theorem C9_placeholder_id_sent:
  "fst (run [(backend_up, AddNew), (backend_up, EditTitle ''Hi''),
             (backend_down, Select ''1''), (backend_up, Save)]
          (snd (Home_mount backend_up))) =
     [GET_note ''1'', PUT_note ''new'' ''Hi'' []] \<and>
   fst (run [(backend_up, AddNew), (backend_up, EditTitle ''Hi''),
             (backend_down, Select ''1''), (backend_up, Delete)]
          (snd (Home_mount backend_up))) =
     [GET_note ''1'', DELETE_note ''new'']"
  by (simp add: Home_mount_eq init_def page_defs click_defs setter_defs client_defs
      backend_defs NoteEditor_init_def placeholder_def)

end
